theory Spec2Isabelle
  imports Main "HOL-Library.Sublist"
begin

section \<open>Text and paths\<close>

text \<open>
  Python text is modelled as \<^typ>\<open>string\<close>; one \<^typ>\<open>char\<close> stands for one code point
  in the range 0..255. \<open>isspace\<close> is \<^verbatim>\<open>str.isspace\<close> on that range (TAB, LF, VT, FF, CR,
  the separators FS, GS, RS, US, SPACE, NEL and NO-BREAK SPACE), and \<open>strip\<close> is
  \<^verbatim>\<open>str.strip()\<close> without argument.
\<close>

definition isspace :: "char \<Rightarrow> bool" where
  "isspace c =
     (let n = (of_char c :: nat)
      in (9 \<le> n \<and> n \<le> 13) \<or> (28 \<le> n \<and> n \<le> 32) \<or> n = 133 \<or> n = 160)"

definition strip :: "string \<Rightarrow> string" where
  "strip s = rev (dropWhile isspace (rev (dropWhile isspace s)))"

text \<open>
  \<^verbatim>\<open>os.path.join(a, b)\<close> with two components, in its POSIX flavour (separator \<open>/\<close>):
  a second component that starts with the separator replaces the first; otherwise the
  two are glued, with a separator unless the first is empty or already ends in one.
\<close>

definition path_join :: "string \<Rightarrow> string \<Rightarrow> string" where
  "path_join a b =
     (if take 1 b = ''/'' then b
      else if a = [] \<or> last a = CHR ''/'' then a @ b
      else a @ ''/'' @ b)"

section \<open>The external process and the worker thread\<close>

text \<open>
  What a spawned downloader will do is an input of the model: whether \<^verbatim>\<open>Popen\<close>
  succeeds, what each iteration of \<^verbatim>\<open>for line in process.stdout\<close> yields (a line of
  text, or an exception raised by the read; the end of the list is end-of-stream), and
  the exit status that \<^verbatim>\<open>process.wait()\<close> collects.
\<close>

datatype read_result = Text string | Read_failure

record behaviour =
  spawn_ok :: bool
  stream :: "read_result list"
  exit_status :: int

datatype error = Spawn_error | Read_error

text \<open>
  The statements of \<^verbatim>\<open>run_process\<close>, each executed atomically on the shared state.
  \<open>Put\<close> is the Tkinter front-end's \<^verbatim>\<open>output_queue.put(line)\<close>; \<open>Emit_output\<close> and
  \<open>Emit_finished\<close> are the Qt front-end's \<^verbatim>\<open>output_signal.emit(line)\<close> and
  \<^verbatim>\<open>process_finished.emit()\<close>. \<open>Raise\<close> marks the point where an exception leaves
  the \<^verbatim>\<open>try\<close> body; it has no effect on the shared state.
\<close>

datatype action =
    Set_running bool
  | Progress_start
  | Progress_stop
  | Popen "string list"
  | Put string
  | Emit_output string
  | Wait
  | Emit_finished
  | Validate
  | Raise error

text \<open>
  The pump loop \<^verbatim>\<open>for line in process.stdout: relay(line)\<close>: the actions it performs and
  the exception that ended it, if any.
\<close>

fun pump :: "(string \<Rightarrow> action) \<Rightarrow> read_result list \<Rightarrow> action list \<times> error option" where
  "pump relay [] = ([], None)"
| "pump relay (Text l # rs) = (case pump relay rs of (acts, e) \<Rightarrow> (relay l # acts, e))"
| "pump relay (Read_failure # rs) = ([], Some Read_error)"

text \<open>
  \<^verbatim>\<open>run_process(command)\<close> of the Tkinter front-end, as the sequence of its statements:
  the \<^verbatim>\<open>try\<close> body up to its normal end or the first exception, then the
  \<^verbatim>\<open>finally\<close> block. The local accumulator \<^verbatim>\<open>collected\<close> is never read and is left out.
\<close>

definition tk_run_process :: "string list \<Rightarrow> behaviour \<Rightarrow> action list" where
  "tk_run_process command beh =
     [Set_running True, Progress_start] @
     (if spawn_ok beh then
        Popen command #
        (case pump Put (stream beh) of
           (acts, None) \<Rightarrow> acts @ [Wait]
         | (acts, Some e) \<Rightarrow> acts @ [Raise e])
      else [Raise Spawn_error]) @
     [Set_running False, Progress_stop, Validate]"

text \<open>\<^verbatim>\<open>YtDlpGUI.run_process(command)\<close> of the Qt front-end.\<close>

definition qt_run_process :: "string list \<Rightarrow> behaviour \<Rightarrow> action list" where
  "qt_run_process command beh =
     [Set_running True] @
     (if spawn_ok beh then
        Popen command #
        (case pump Emit_output (stream beh) of
           (acts, None) \<Rightarrow> acts @ [Wait]
         | (acts, Some e) \<Rightarrow> acts @ [Raise e])
      else [Raise Spawn_error]) @
     [Emit_finished]"

section \<open>The shared state of a front-end\<close>

datatype mode = Audio | Video

datatype signal = Output_signal string | Process_finished

record process =
  argv :: "string list"
  reaped :: bool

record thread =
  args :: "string list"
  todo :: "action list"
  child :: "nat option"

text \<open>
  One record for both front-ends, named after the Tkinter globals (the Qt attributes
  are \<^verbatim>\<open>radio_audio.isChecked()\<close>, \<^verbatim>\<open>url_entry.text()\<close>, \<^verbatim>\<open>format_entry.text()\<close>,
  \<^verbatim>\<open>filename_entry.text()\<close>, \<^verbatim>\<open>download_folder\<close>). \<open>output_text\<close> is the content of the
  output text widget, \<open>download_btn\<close> whether the Download button is enabled,
  \<open>progress\<close> whether the progress bar is active (Tkinter) or visible (Qt),
  \<open>format_entry\<close> whether the format field is shown. \<open>signals\<close> are the Qt signals
  emitted by workers and not yet delivered to the GUI thread; \<open>threads\<close> the worker
  threads started so far; \<open>processes\<close> the downloader processes spawned so far.
\<close>

record gui =
  yt_dlp_path :: string
  download_type :: mode
  url_var :: string
  format_var :: string
  filename_var :: string
  download_path :: string
  process_running :: bool
  output_queue :: "string list"
  output_text :: string
  download_btn :: bool
  progress :: bool
  format_entry :: bool
  signals :: "signal list"
  threads :: "thread list"
  processes :: "process list"

definition append_output :: "string \<Rightarrow> gui \<Rightarrow> gui" where
  "append_output text w = w\<lparr>output_text := output_text w @ text\<rparr>"

definition tk_validate :: "gui \<Rightarrow> gui" where
  "tk_validate w =
     (if process_running w then w\<lparr>download_btn := False\<rparr>
      else w\<lparr>download_btn := (strip (url_var w) \<noteq> []),
             format_entry := (download_type w = Video)\<rparr>)"

definition qt_validate :: "gui \<Rightarrow> gui" where
  "qt_validate w =
     (if process_running w then w\<lparr>download_btn := False\<rparr>
      else w\<lparr>download_btn := (strip (url_var w) \<noteq> [])\<rparr>)"

definition start_thread :: "string list \<Rightarrow> action list \<Rightarrow> gui \<Rightarrow> gui" where
  "start_thread cmd body w =
     w\<lparr>threads := threads w @ [\<lparr>args = cmd, todo = body, child = None\<rparr>]\<rparr>"

definition started_banner :: string where
  "started_banner = CHR 0x0A # ''--- Download started ---'' @ [CHR 0x0A]"

definition listing_banner :: string where
  "listing_banner = CHR 0x0A # ''Listing formats...'' @ [CHR 0x0A]"

text \<open>
  \<^verbatim>\<open>start_download()\<close> of the Tkinter front-end. \<open>beh\<close> is what the process of this job
  will do once its worker spawns it.
\<close>

definition tk_start_download :: "behaviour \<Rightarrow> gui \<Rightarrow> gui" where
  "tk_start_download beh w0 =
     (let w = append_output started_banner w0;
          base = (if strip (filename_var w) = [] then ''%(title)s'' else strip (filename_var w));
          output_template = path_join (download_path w) (base @ ''.%(ext)s'')
      in if download_type w = Audio then
           (let cmd = [yt_dlp_path w, ''-x'', ''--audio-format'', ''mp3'', ''-o'',
                       output_template, url_var w]
            in start_thread cmd (tk_run_process cmd beh) w)
         else if strip (format_var w) = [] then
           (let w1 = append_output listing_banner w;
                cmd = [yt_dlp_path w1, ''-F'', url_var w1]
            in start_thread cmd (tk_run_process cmd beh) w1)
         else
           (let cmd = [yt_dlp_path w, ''-f'', format_var w, ''--merge-output-format'', ''mp4'',
                       ''-o'', output_template, url_var w]
            in start_thread cmd (tk_run_process cmd beh) w))"

text \<open>\<^verbatim>\<open>YtDlpGUI.start_download()\<close> of the Qt front-end.\<close>

definition qt_start_download :: "behaviour \<Rightarrow> gui \<Rightarrow> gui" where
  "qt_start_download beh w0 =
     (let w = (append_output started_banner w0)\<lparr>progress := True\<rparr>;
          base = (if strip (filename_var w) = [] then ''%(title)s'' else strip (filename_var w));
          output_template = path_join (download_path w) (base @ ''.%(ext)s'')
      in if download_type w = Audio then
           (let cmd = [yt_dlp_path w, ''-x'', ''--audio-format'', ''mp3'', ''-o'',
                       output_template, url_var w]
            in start_thread cmd (qt_run_process cmd beh) w)
         else if strip (format_var w) = [] then
           (let w1 = append_output listing_banner w;
                cmd = [yt_dlp_path w1, ''-F'', url_var w1]
            in start_thread cmd (qt_run_process cmd beh) w1)
         else
           (let cmd = [yt_dlp_path w, ''-f'', format_var w, ''--merge-output-format'', ''mp4'',
                       ''-o'', output_template, url_var w]
            in start_thread cmd (qt_run_process cmd beh) w))"

text \<open>The command line handed to the most recently started worker thread.\<close>

definition launched :: "gui \<Rightarrow> string list" where
  "launched w = args (last (threads w))"

section \<open>Executing the workers and the GUI thread\<close>

text \<open>
  The effect of one statement of worker \<open>i\<close> on the shared state. \<open>Popen\<close> adds a
  process and keeps its index as the worker's process object; \<open>Wait\<close> reaps that
  process (the exit status it returns is discarded by the callers). \<open>Put\<close> is the
  effect of a put that does not have to wait.
\<close>

fun exec :: "nat \<Rightarrow> action \<Rightarrow> gui \<Rightarrow> gui" where
  "exec i (Set_running b) w = w\<lparr>process_running := b\<rparr>"
| "exec i Progress_start w = w\<lparr>progress := True\<rparr>"
| "exec i Progress_stop w = w\<lparr>progress := False\<rparr>"
| "exec i (Popen cmd) w =
     (if i < length (threads w) then
        w\<lparr>processes := processes w @ [\<lparr>argv = cmd, reaped = False\<rparr>],
          threads := (threads w)[i := (threads w ! i)\<lparr>child := Some (length (processes w))\<rparr>]\<rparr>
      else w)"
| "exec i (Put l) w = w\<lparr>output_queue := output_queue w @ [l]\<rparr>"
| "exec i (Emit_output l) w = w\<lparr>signals := signals w @ [Output_signal l]\<rparr>"
| "exec i Wait w =
     (if i < length (threads w) then
        (case child (threads w ! i) of
           None \<Rightarrow> w
         | Some p \<Rightarrow> w\<lparr>processes := (processes w)[p := (processes w ! p)\<lparr>reaped := True\<rparr>]\<rparr>)
      else w)"
| "exec i Emit_finished w = w\<lparr>signals := signals w @ [Process_finished]\<rparr>"
| "exec i Validate w = tk_validate w"
| "exec i (Raise e) w = w"

text \<open>Running a sequence of statements of worker \<open>i\<close> without interruption.\<close>

definition exec_all :: "nat \<Rightarrow> action list \<Rightarrow> gui \<Rightarrow> gui" where
  "exec_all i acts w = foldl (\<lambda>v a. exec i a v) w acts"

text \<open>
  \<^verbatim>\<open>queue.Queue(maxsize).put(item)\<close>: the queue is full when \<open>maxsize\<close> is positive and
  it holds that many items, and a put on a full queue waits for a free slot; otherwise
  the item is appended. \<open>None\<close> stands for a put that has to wait. The front-ends
  create their queue with \<^verbatim>\<open>queue.Queue()\<close>, whose \<open>maxsize\<close> is 0.
\<close>

definition queue_put :: "nat \<Rightarrow> 'a list \<Rightarrow> 'a \<Rightarrow> 'a list option" where
  "queue_put maxsize q x =
     (if 0 < maxsize \<and> maxsize \<le> length q then None else Some (q @ [x]))"

definition output_queue_maxsize :: nat where
  "output_queue_maxsize = 0"

text \<open>Whether a statement has to wait in the given state: only a put on a full queue.\<close>

definition waits :: "action \<Rightarrow> gui \<Rightarrow> bool" where
  "waits a w =
     (case a of
        Put l \<Rightarrow> queue_put output_queue_maxsize (output_queue w) l = None
      | _ \<Rightarrow> False)"

text \<open>
  Worker \<open>i\<close> executes its next statement, if it exists, has one left and that
  statement does not have to wait.
\<close>

definition thread_step :: "nat \<Rightarrow> gui \<Rightarrow> gui" where
  "thread_step i w =
     (if i < length (threads w) then
        (case todo (threads w ! i) of
           [] \<Rightarrow> w
         | a # rest \<Rightarrow>
             if waits a w then w
             else exec i a (w\<lparr>threads := (threads w)[i := (threads w ! i)\<lparr>todo := rest\<rparr>]\<rparr>))
      else w)"

text \<open>
  \<^verbatim>\<open>process_queue()\<close>: \<^verbatim>\<open>while not output_queue.empty(): append_output(output_queue.get())\<close>,
  run to completion on the GUI thread.
\<close>

function process_queue :: "gui \<Rightarrow> gui" where
  "process_queue w =
     (if output_queue w = [] then w
      else process_queue
             (append_output (hd (output_queue w)) (w\<lparr>output_queue := tl (output_queue w)\<rparr>)))"
  by pat_completeness auto
termination
  by (relation "measure (\<lambda>w. length (output_queue w))") (auto simp: append_output_def)

declare process_queue.simps [simp del]

text \<open>\<^verbatim>\<open>YtDlpGUI.on_process_finished()\<close>, the Qt slot of \<^verbatim>\<open>process_finished\<close>.\<close>

definition on_process_finished :: "gui \<Rightarrow> gui" where
  "on_process_finished w = qt_validate (w\<lparr>process_running := False, progress := False\<rparr>)"

text \<open>
  The Qt event loop delivers the oldest pending signal to its slot on the GUI thread:
  \<^verbatim>\<open>output_signal\<close> to \<^verbatim>\<open>append_output\<close>, \<^verbatim>\<open>process_finished\<close> to
  \<^verbatim>\<open>on_process_finished\<close>.
\<close>

definition qt_dispatch :: "gui \<Rightarrow> gui" where
  "qt_dispatch w =
     (case signals w of
        [] \<Rightarrow> w
      | Output_signal t # rest \<Rightarrow> append_output t (w\<lparr>signals := rest\<rparr>)
      | Process_finished # rest \<Rightarrow> on_process_finished (w\<lparr>signals := rest\<rparr>))"

text \<open>
  What can happen next: the user presses Download (the button runs its command only
  while it is enabled) or edits a field, the 100 ms timer fires, the Qt event loop
  delivers a signal, or a worker thread executes its next statement.
\<close>

datatype event =
    Press behaviour
  | Edit_url string
  | Select_type mode
  | Edit_format string
  | Edit_filename string
  | Timer
  | Dispatch
  | Thread nat

fun tk_step :: "event \<Rightarrow> gui \<Rightarrow> gui" where
  "tk_step (Press beh) w = (if download_btn w then tk_start_download beh w else w)"
| "tk_step (Edit_url s) w = tk_validate (w\<lparr>url_var := s\<rparr>)"
| "tk_step (Select_type m) w = tk_validate (w\<lparr>download_type := m\<rparr>)"
| "tk_step (Edit_format s) w = w\<lparr>format_var := s\<rparr>"
| "tk_step (Edit_filename s) w = w\<lparr>filename_var := s\<rparr>"
| "tk_step Timer w = process_queue w"
| "tk_step Dispatch w = w"
| "tk_step (Thread i) w = thread_step i w"

fun qt_step :: "event \<Rightarrow> gui \<Rightarrow> gui" where
  "qt_step (Press beh) w = (if download_btn w then qt_start_download beh w else w)"
| "qt_step (Edit_url s) w = qt_validate (w\<lparr>url_var := s\<rparr>)"
| "qt_step (Select_type m) w =
     qt_validate (w\<lparr>download_type := m, format_entry := (m = Video)\<rparr>)"
| "qt_step (Edit_format s) w = w\<lparr>format_var := s\<rparr>"
| "qt_step (Edit_filename s) w = w\<lparr>filename_var := s\<rparr>"
| "qt_step Timer w = process_queue w"
| "qt_step Dispatch w = qt_dispatch w"
| "qt_step (Thread i) w = thread_step i w"

definition tk_run :: "event list \<Rightarrow> gui \<Rightarrow> gui" where
  "tk_run es w = foldl (\<lambda>v e. tk_step e v) w es"

definition qt_run :: "event list \<Rightarrow> gui \<Rightarrow> gui" where
  "qt_run es w = foldl (\<lambda>v e. qt_step e v) w es"

text \<open>The number of spawned processes that no worker has waited for yet.\<close>

definition alive :: "gui \<Rightarrow> nat" where
  "alive w = length (filter (\<lambda>p. \<not> reaped p) (processes w))"

text \<open>The lines a pump loop reads before the stream ends or a read fails.\<close>

fun lines_read :: "read_result list \<Rightarrow> string list" where
  "lines_read [] = []"
| "lines_read (Text l # rs) = l # lines_read rs"
| "lines_read (Read_failure # rs) = []"

section \<open>Observations on traces and states\<close>

text \<open>The lines a sequence of statements puts on the Tkinter queue, in order.\<close>

fun queued :: "action list \<Rightarrow> string list" where
  "queued [] = []"
| "queued (Put l # acts) = l # queued acts"
| "queued (a # acts) = queued acts"

text \<open>The Qt signals a sequence of statements emits, in order.\<close>

fun posted :: "action list \<Rightarrow> signal list" where
  "posted [] = []"
| "posted (Emit_output l # acts) = Output_signal l # posted acts"
| "posted (Emit_finished # acts) = Process_finished # posted acts"
| "posted (a # acts) = posted acts"

text \<open>The Qt event loop delivers every signal that is pending.\<close>

definition qt_deliver_all :: "gui \<Rightarrow> gui" where
  "qt_deliver_all w = (qt_dispatch ^^ length (signals w)) w"

text \<open>
  A sequence of statements still holds a finalisation when it contains the Tkinter
  reset of the flag or the Qt \<^verbatim>\<open>process_finished.emit()\<close>; it \<open>closes\<close> when every
  statement that sets the flag is followed by one. A state is \<open>accounted\<close> when every
  worker's remaining statements close and a set flag is matched by a finalisation that
  some worker still holds or by a \<^verbatim>\<open>process_finished\<close> signal awaiting delivery. It is
  \<open>quiescent\<close> when no worker has a statement left and no signal is pending.
\<close>

definition pending :: "action list \<Rightarrow> bool" where
  "pending acts = (Set_running False \<in> set acts \<or> Emit_finished \<in> set acts)"

fun closes :: "action list \<Rightarrow> bool" where
  "closes [] = True"
| "closes (Set_running True # rest) = (pending rest \<and> closes rest)"
| "closes (a # rest) = closes rest"

definition accounted :: "gui \<Rightarrow> bool" where
  "accounted w =
     (list_all (\<lambda>t. closes (todo t)) (threads w)
      \<and> (if process_running w
          then list_ex (\<lambda>t. pending (todo t)) (threads w) \<or> Process_finished \<in> set (signals w)
          else True))"

definition quiescent :: "gui \<Rightarrow> bool" where
  "quiescent w = (list_all (\<lambda>t. todo t = []) (threads w) \<and> signals w = [])"

section \<open>Start-up\<close>

text \<open>
  The state of each front-end when its event loop starts. Tkinter never calls
  \<^verbatim>\<open>validate()\<close> during start-up, so its button keeps the widget's default (enabled);
  Qt calls \<^verbatim>\<open>validate()\<close> in the constructor, with an empty URL.
\<close>

definition tk_init :: "string \<Rightarrow> string \<Rightarrow> gui" where
  "tk_init exe folder =
     \<lparr>yt_dlp_path = exe, download_type = Audio, url_var = [], format_var = [],
      filename_var = [], download_path = folder, process_running = False,
      output_queue = [], output_text = [], download_btn = True, progress = False,
      format_entry = False, signals = [], threads = [], processes = []\<rparr>"

definition qt_init :: "string \<Rightarrow> string \<Rightarrow> gui" where
  "qt_init exe folder =
     \<lparr>yt_dlp_path = exe, download_type = Audio, url_var = [], format_var = [],
      filename_var = [], download_path = folder, process_running = False,
      output_queue = [], output_text = [], download_btn = False, progress = False,
      format_entry = False, signals = [], threads = [], processes = []\<rparr>"

text \<open>
  Start-up, in the order of the module: \<^verbatim>\<open>load_settings()\<close> (which never raises), the
  probe \<^verbatim>\<open>subprocess.run([yt_dlp_path, "--update"], ...)\<close>, then the construction of
  the window and the event loop. The probe returns (with some exit status), raises
  \<^verbatim>\<open>FileNotFoundError\<close>, or raises something else. The loaded settings may lack a key:
  \<^verbatim>\<open>settings["theme"]\<close> and \<^verbatim>\<open>settings["download_folder"]\<close> then raise \<^verbatim>\<open>KeyError\<close>
  (loaded data that is not a JSON object counts as lacking both; the subscript raises
  all the same). Tkinter also looks the theme up in \<^verbatim>\<open>THEMES\<close> and writes the settings
  file in its first \<^verbatim>\<open>apply_theme()\<close>; Qt treats every theme but \<open>dark\<close> as light and
  does not write at start-up. Failures of the GUI toolkit itself are not modelled.
  The result is the list of what the program does and how it ends: in its event loop,
  by exiting with a status, or with an uncaught exception. \<open>Show_window\<close> stands for
  the main window being presented by the event loop (\<^verbatim>\<open>root.mainloop()\<close>, or
  \<^verbatim>\<open>window.show()\<close> followed by \<^verbatim>\<open>app.exec()\<close>).
\<close>

datatype probe = Probe_ran int | Probe_not_found | Probe_failed

record loaded_settings =
  theme :: "string option"
  download_folder :: "string option"

datatype startup_step = Run_update | Show_error string | Show_window

datatype ending = Event_loop | Exit int | Uncaught

definition tk_startup :: "probe \<Rightarrow> loaded_settings \<Rightarrow> bool \<Rightarrow> startup_step list \<times> ending" where
  "tk_startup p st can_save =
     (case p of
        Probe_not_found \<Rightarrow> ([Run_update, Show_error ''yt-dlp was not found in PATH''], Exit 0)
      | Probe_failed \<Rightarrow> ([Run_update], Uncaught)
      | Probe_ran rc \<Rightarrow>
          (case theme st of
             None \<Rightarrow> ([Run_update], Uncaught)
           | Some t \<Rightarrow>
               (case download_folder st of
                  None \<Rightarrow> ([Run_update], Uncaught)
                | Some d \<Rightarrow>
                    if (t = ''dark'' \<or> t = ''light'') \<and> can_save
                    then ([Run_update, Show_window], Event_loop)
                    else ([Run_update], Uncaught))))"

definition qt_startup :: "probe \<Rightarrow> loaded_settings \<Rightarrow> startup_step list \<times> ending" where
  "qt_startup p st =
     (case p of
        Probe_not_found \<Rightarrow> ([Run_update, Show_error ''yt-dlp was not found in PATH''], Exit 1)
      | Probe_failed \<Rightarrow> ([Run_update], Uncaught)
      | Probe_ran rc \<Rightarrow>
          (case theme st of
             None \<Rightarrow> ([Run_update], Uncaught)
           | Some t \<Rightarrow>
               (case download_folder st of
                  None \<Rightarrow> ([Run_update], Uncaught)
                | Some d \<Rightarrow> ([Run_update, Show_window], Event_loop))))"

section \<open>Concrete runs\<close>

definition quiet :: behaviour where
  "quiet = \<lparr>spawn_ok = True, stream = [], exit_status = 0\<rparr>"

definition slow_job :: behaviour where
  "slow_job = \<lparr>spawn_ok = True,
               stream = [Text (''[download] 1%'' @ [CHR 0x0A]), Text (''[download] 2%'' @ [CHR 0x0A])],
               exit_status = 0\<rparr>"

definition broken_pipe :: behaviour where
  "broken_pipe = \<lparr>spawn_ok = True,
                  stream = [Text (''[download] 1%'' @ [CHR 0x0A]), Read_failure],
                  exit_status = 1\<rparr>"

text \<open>
  Tkinter: the user enters a URL and presses Download; the worker runs up to and
  including its \<^verbatim>\<open>Popen\<close>. Then the user presses Download again and the second
  worker runs up to and including its \<^verbatim>\<open>Popen\<close>.
\<close>

definition tk_first_job :: gui where
  "tk_first_job =
     tk_run [Edit_url ''https://x/1'', Press slow_job, Thread 0, Thread 0, Thread 0]
       (tk_init ''/app/yt-dlp.exe'' ''/tmp'')"

definition tk_second_job :: gui where
  "tk_second_job = tk_run [Press slow_job, Thread 1, Thread 1, Thread 1] tk_first_job"

text \<open>
  Qt: the user enters a URL and presses Download twice; then the two workers take
  turns: each sets the flag, then each spawns.
\<close>

definition qt_one_press :: gui where
  "qt_one_press =
     qt_run [Edit_url ''https://x/1'', Press slow_job] (qt_init ''/app/yt-dlp.exe'' ''/tmp'')"

definition qt_two_presses :: gui where
  "qt_two_presses = qt_run [Press slow_job] qt_one_press"

definition qt_interleaved :: gui where
  "qt_interleaved = qt_run [Thread 0, Thread 1, Thread 0, Thread 1] qt_two_presses"

text \<open>
  Qt: one press, and the worker runs up to and including its \<^verbatim>\<open>Popen\<close>; then a
  second press, and the second worker runs up to and including its \<^verbatim>\<open>Popen\<close>.
\<close>

definition qt_first_job :: gui where
  "qt_first_job = qt_run [Thread 0, Thread 0] qt_one_press"

definition qt_second_job :: gui where
  "qt_second_job = qt_run [Press slow_job, Thread 1, Thread 1] qt_first_job"

text \<open>
  Tkinter: one job whose worker has executed all nine of its statements, while the
  timer has not fired yet.
\<close>

definition tk_slow_done :: gui where
  "tk_slow_done =
     tk_run [Edit_url ''https://x/1'', Press slow_job, Thread 0, Thread 0, Thread 0,
             Thread 0, Thread 0, Thread 0, Thread 0, Thread 0, Thread 0]
       (tk_init ''/app/yt-dlp.exe'' ''/tmp'')"

definition qt_job_done :: gui where
  "qt_job_done =
     qt_run [Edit_url ''https://x/1'', Press quiet, Thread 0, Thread 0, Thread 0, Thread 0]
       (qt_init ''/app/yt-dlp.exe'' ''/tmp'')"

definition qt_slow_done :: gui where
  "qt_slow_done =
     qt_run [Edit_url ''https://x/1'', Press slow_job,
             Thread 0, Thread 0, Thread 0, Thread 0, Thread 0, Thread 0]
       (qt_init ''/app/yt-dlp.exe'' ''/tmp'')"

text \<open>
  A whole job whose output stream breaks after one line: every statement of the worker
  is executed and, in Qt, both signals it emitted are delivered.
\<close>

definition tk_broken_run :: "event list" where
  "tk_broken_run =
     [Edit_url ''https://x/1'', Press broken_pipe, Thread 0, Thread 0, Thread 0, Thread 0,
      Thread 0, Thread 0, Thread 0, Thread 0, Timer]"

definition qt_broken_run :: "event list" where
  "qt_broken_run =
     [Edit_url ''https://x/1'', Press broken_pipe, Thread 0, Thread 0, Thread 0, Thread 0,
      Thread 0, Dispatch, Dispatch]"

text \<open>Field contents used to exercise the command builder.\<close>

definition audio_gui :: gui where
  "audio_gui = (tk_init ''/app/yt-dlp.exe'' ''/tmp'')\<lparr>url_var := ''https://x/1''\<rparr>"

definition video_probe_gui :: gui where
  "video_probe_gui =
     (tk_init ''/app/yt-dlp.exe'' ''/tmp'')
       \<lparr>download_type := Video, url_var := ''https://x/1'', format_var := ''  ''\<rparr>"

definition video_download_gui :: gui where
  "video_download_gui =
     (tk_init ''/app/yt-dlp.exe'' ''/d'')
       \<lparr>download_type := Video, url_var := ''https://x/1'', format_var := ''137+140'',
        filename_var := ''clip''\<rparr>"

definition padded_gui :: gui where
  "padded_gui =
     (tk_init ''/app/yt-dlp.exe'' ''/d'')
       \<lparr>download_type := Video, url_var := ''  https://x/1 '', format_var := '' 137+140 ''\<rparr>"

section \<open>Properties of the text helpers\<close>

lemma dropWhile_all_Nil: "list_all P (dropWhile P xs) \<Longrightarrow> dropWhile P xs = []"
  by (induction xs) (auto split: if_splits)

lemma strip_Nil_iff: "strip s = [] \<longleftrightarrow> list_all isspace s"
proof
  assume "strip s = []"
  then have "list_all isspace (dropWhile isspace s)"
    by (simp add: strip_def list_all_iff)
  then have "dropWhile isspace s = []" by (rule dropWhile_all_Nil)
  then show "list_all isspace s" by (simp add: list_all_iff)
next
  assume "list_all isspace s"
  then have "dropWhile isspace s = []" by (simp add: list_all_iff)
  then show "strip s = []" by (simp only: strip_def rev.simps dropWhile.simps)
qed

lemma strip_pad:
  assumes l: "list_all isspace l" and r: "list_all isspace r"
  shows "strip (l @ s @ r) = strip s"
proof -
  have lead: "dropWhile isspace (l @ t) = dropWhile isspace t" for t
    using l by (simp add: dropWhile_append2 list_all_iff)
  have "\<And>x. x \<in> set (rev r) \<Longrightarrow> isspace x"
    using r by (simp add: list_all_iff)
  then have trail: "dropWhile isspace (rev r @ t) = dropWhile isspace t" for t
    by (rule dropWhile_append2)
  show ?thesis
  proof (cases "list_all isspace s")
    case True
    then have "list_all isspace (l @ s @ r)" using l r by simp
    then have "strip (l @ s @ r) = []" by (simp only: strip_Nil_iff)
    moreover have "strip s = []" using True by (simp only: strip_Nil_iff)
    ultimately show ?thesis by simp
  next
    case False
    then obtain x where x: "x \<in> set s" "\<not> isspace x" by (auto simp: list_all_iff)
    then have "dropWhile isspace (s @ r) = dropWhile isspace s @ r"
      by (simp add: dropWhile_append1)
    then have "strip (l @ s @ r) = rev (dropWhile isspace (rev r @ rev (dropWhile isspace s)))"
      by (simp add: strip_def lead)
    also have "\<dots> = strip s" by (simp only: trail strip_def)
    finally show ?thesis .
  qed
qed

lemma path_join_suffix: "suffix x (path_join a (b @ x))"
  unfolding path_join_def suffix_def
  by (metis append.assoc)

section \<open>The command line of a job\<close>

lemma launched_tk:
  "launched (tk_start_download beh w) =
     (if download_type w = Audio then
        [yt_dlp_path w, ''-x'', ''--audio-format'', ''mp3'', ''-o'',
         path_join (download_path w)
           ((if strip (filename_var w) = [] then ''%(title)s'' else strip (filename_var w))
            @ ''.%(ext)s''),
         url_var w]
      else if strip (format_var w) = [] then [yt_dlp_path w, ''-F'', url_var w]
      else
        [yt_dlp_path w, ''-f'', format_var w, ''--merge-output-format'', ''mp4'', ''-o'',
         path_join (download_path w)
           ((if strip (filename_var w) = [] then ''%(title)s'' else strip (filename_var w))
            @ ''.%(ext)s''),
         url_var w])"
  by (simp add: launched_def tk_start_download_def start_thread_def append_output_def Let_def)

lemma launched_qt:
  "launched (qt_start_download beh w) = launched (tk_start_download beh w)"
  by (simp add: launched_def tk_start_download_def qt_start_download_def start_thread_def
      append_output_def Let_def)

text \<open>
  Claim C5. In audio mode both front-ends hand their worker the command line
  \<open>[exe, -x, --audio-format, mp3, -o, template, url]\<close>, where the template joins the
  download folder with the trimmed file name (or \<open>%(title)s\<close> when the trimmed name is
  empty) followed by \<open>.%(ext)s\<close>. The \<open>-o\<close> value always ends in \<open>.%(ext)s\<close>, and for
  the URL \<open>https://x/1\<close>, an empty file name and the folder \<open>/tmp\<close> the arguments are
  \<open>[-x, --audio-format, mp3, -o, /tmp/%(title)s.%(ext)s, https://x/1]\<close>.
\<close>

theorem audio_command_line:
  assumes "download_type w = Audio"
  shows "launched (tk_start_download beh w) =
           [yt_dlp_path w, ''-x'', ''--audio-format'', ''mp3'', ''-o'',
            path_join (download_path w)
              ((if strip (filename_var w) = [] then ''%(title)s'' else strip (filename_var w))
               @ ''.%(ext)s''),
            url_var w]
       \<and> launched (qt_start_download beh w) = launched (tk_start_download beh w)
       \<and> suffix ''.%(ext)s'' (launched (tk_start_download beh w) ! 5)
       \<and> (url_var w = ''https://x/1'' \<and> filename_var w = [] \<and> download_path w = ''/tmp'' \<longrightarrow>
            tl (launched (tk_start_download beh w)) =
              [''-x'', ''--audio-format'', ''mp3'', ''-o'', ''/tmp/%(title)s.%(ext)s'',
               ''https://x/1''])"
proof -
  have cmd: "launched (tk_start_download beh w) =
           [yt_dlp_path w, ''-x'', ''--audio-format'', ''mp3'', ''-o'',
            path_join (download_path w)
              ((if strip (filename_var w) = [] then ''%(title)s'' else strip (filename_var w))
               @ ''.%(ext)s''),
            url_var w]"
    using assms by (simp add: launched_tk)
  have suf: "suffix ''.%(ext)s'' (launched (tk_start_download beh w) ! 5)"
    unfolding cmd by (simp add: path_join_suffix)
  have ex: "url_var w = ''https://x/1'' \<and> filename_var w = [] \<and> download_path w = ''/tmp'' \<longrightarrow>
            tl (launched (tk_start_download beh w)) =
              [''-x'', ''--audio-format'', ''mp3'', ''-o'', ''/tmp/%(title)s.%(ext)s'',
               ''https://x/1'']"
    unfolding cmd by (simp add: strip_def path_join_def)
  show ?thesis using cmd suf ex launched_qt by blast
qed

theorem audio_command_line_witness:
  "download_type audio_gui = Audio
   \<and> launched (qt_start_download quiet audio_gui) =
       [''/app/yt-dlp.exe'', ''-x'', ''--audio-format'', ''mp3'', ''-o'',
        ''/tmp/%(title)s.%(ext)s'', ''https://x/1'']
   \<and> tl (launched (tk_start_download quiet audio_gui)) =
       [''-x'', ''--audio-format'', ''mp3'', ''-o'', ''/tmp/%(title)s.%(ext)s'', ''https://x/1'']"
  using audio_command_line [of audio_gui quiet]
  by (simp add: audio_gui_def tk_init_def strip_def path_join_def)

text \<open>
  Claim C6. In video mode with a format field that is empty or holds only white space,
  both front-ends hand their worker exactly \<open>[exe, -F, url]\<close>, whatever the file name
  and the download folder are.
\<close>

theorem video_probe_command_line:
  assumes "download_type w = Video" and "list_all isspace (format_var w)"
  shows "launched (tk_start_download beh (w\<lparr>filename_var := f, download_path := d\<rparr>)) =
           [yt_dlp_path w, ''-F'', url_var w]
       \<and> launched (qt_start_download beh (w\<lparr>filename_var := f, download_path := d\<rparr>)) =
           [yt_dlp_path w, ''-F'', url_var w]"
proof -
  have "strip (format_var w) = []" using assms(2) by (simp add: strip_Nil_iff)
  then show ?thesis using assms(1) by (simp add: launched_qt launched_tk)
qed

theorem video_probe_command_line_witness:
  "download_type video_probe_gui = Video
   \<and> list_all isspace (format_var video_probe_gui)
   \<and> launched (tk_start_download quiet
        (video_probe_gui\<lparr>filename_var := ''clip'', download_path := ''/d''\<rparr>)) =
       [''/app/yt-dlp.exe'', ''-F'', ''https://x/1'']
   \<and> launched (qt_start_download quiet
        (video_probe_gui\<lparr>filename_var := ''clip'', download_path := ''/d''\<rparr>)) =
       [''/app/yt-dlp.exe'', ''-F'', ''https://x/1'']"
  using video_probe_command_line
    [where w = video_probe_gui and beh = quiet and f = "''clip''" and d = "''/d''"]
  by (simp add: video_probe_gui_def tk_init_def isspace_def)

text \<open>
  Claim C7. In video mode with a format field that is not empty after trimming, both
  front-ends hand their worker \<open>[exe, -f, format, --merge-output-format, mp4, -o,
  template, url]\<close>. The file name and the format are trimmed before they are tested for
  emptiness, so a value of white space only counts as empty, and white space around the
  file name does not change the command.
\<close>

theorem video_download_command_line:
  assumes "download_type w = Video" and "strip (format_var w) \<noteq> []"
  shows "launched (tk_start_download beh w) =
           [yt_dlp_path w, ''-f'', format_var w, ''--merge-output-format'', ''mp4'', ''-o'',
            path_join (download_path w)
              ((if strip (filename_var w) = [] then ''%(title)s'' else strip (filename_var w))
               @ ''.%(ext)s''),
            url_var w]
       \<and> launched (qt_start_download beh w) = launched (tk_start_download beh w)
       \<and> (strip (filename_var w) = [] \<longleftrightarrow> list_all isspace (filename_var w))
       \<and> (strip (format_var w) = [] \<longleftrightarrow> list_all isspace (format_var w))
       \<and> (list_all isspace l \<and> list_all isspace r \<longrightarrow>
            launched (tk_start_download beh (w\<lparr>filename_var := l @ n @ r\<rparr>)) =
            launched (tk_start_download beh (w\<lparr>filename_var := n\<rparr>)))"
  using assms by (simp add: launched_tk launched_qt strip_Nil_iff strip_pad)

theorem video_download_command_line_witness:
  "download_type video_download_gui = Video
   \<and> strip (format_var video_download_gui) \<noteq> []
   \<and> launched (tk_start_download quiet video_download_gui) =
       [''/app/yt-dlp.exe'', ''-f'', ''137+140'', ''--merge-output-format'', ''mp4'', ''-o'',
        ''/d/clip.%(ext)s'', ''https://x/1'']
   \<and> launched (qt_start_download quiet video_download_gui) =
       [''/app/yt-dlp.exe'', ''-f'', ''137+140'', ''--merge-output-format'', ''mp4'', ''-o'',
        ''/d/clip.%(ext)s'', ''https://x/1'']"
  using video_download_command_line [where w = video_download_gui and beh = quiet]
  by (simp add: video_download_gui_def tk_init_def strip_def isspace_def path_join_def)

text \<open>
  Claim C10. The URL and the format reach the command line as typed, without trimming:
  the last argument is the URL field's text and the argument after \<open>-f\<close> is the format
  field's text, while the emptiness test of the format and the validation of the URL
  look at the trimmed text. A URL typed as \<open>  https://x/1 \<close> is passed on with its
  surrounding spaces.
\<close>

theorem url_and_format_verbatim:
  "last (launched (tk_start_download beh w)) = url_var w
   \<and> last (launched (qt_start_download beh w)) = url_var w
   \<and> (download_type w = Video \<and> strip (format_var w) \<noteq> [] \<longrightarrow>
        launched (tk_start_download beh w) ! 2 = format_var w
        \<and> launched (qt_start_download beh w) ! 2 = format_var w)
   \<and> (\<not> process_running w \<longrightarrow>
        download_btn (tk_validate w) = (strip (url_var w) \<noteq> [])
        \<and> download_btn (qt_validate w) = (strip (url_var w) \<noteq> []))"
  by (simp add: launched_tk launched_qt tk_validate_def qt_validate_def)

theorem url_and_format_verbatim_witness:
  "download_type padded_gui = Video
   \<and> strip (format_var padded_gui) = ''137+140''
   \<and> strip (url_var padded_gui) = ''https://x/1''
   \<and> \<not> process_running padded_gui
   \<and> last (launched (tk_start_download quiet padded_gui)) = ''  https://x/1 ''
   \<and> last (launched (qt_start_download quiet padded_gui)) = ''  https://x/1 ''
   \<and> launched (tk_start_download quiet padded_gui) ! 2 = '' 137+140 ''
   \<and> launched (qt_start_download quiet padded_gui) ! 2 = '' 137+140 ''
   \<and> download_btn (tk_validate padded_gui)"
  using url_and_format_verbatim [of quiet padded_gui]
  by (simp add: padded_gui_def tk_init_def strip_def isspace_def)

section \<open>Start-up without the downloader\<close>

text \<open>
  Claim C9. When the start-up probe finds no downloader executable, both front-ends run
  the probe once, show an error dialog and exit, whatever the settings hold; the main
  window is never shown.
\<close>

theorem missing_executable_is_fatal:
  "tk_startup Probe_not_found st can_save =
     ([Run_update, Show_error ''yt-dlp was not found in PATH''], Exit 0)
   \<and> qt_startup Probe_not_found st =
     ([Run_update, Show_error ''yt-dlp was not found in PATH''], Exit 1)
   \<and> Show_window \<notin> set (fst (tk_startup Probe_not_found st can_save))
   \<and> Show_window \<notin> set (fst (qt_startup Probe_not_found st))
   \<and> count_list (fst (tk_startup Probe_not_found st can_save)) Run_update = 1
   \<and> count_list (fst (qt_startup Probe_not_found st)) Run_update = 1
   \<and> snd (tk_startup Probe_not_found st can_save) \<noteq> Event_loop
   \<and> snd (qt_startup Probe_not_found st) \<noteq> Event_loop"
  by (simp add: tk_startup_def qt_startup_def)

section \<open>Traces of the worker\<close>

lemma pump_fst: "fst (pump relay rs) = map relay (lines_read rs)"
  by (induction rs rule: lines_read.induct) (auto split: prod.splits)

lemma pump_snd: "snd (pump relay rs) = (if Read_failure \<in> set rs then Some Read_error else None)"
  by (induction rs rule: lines_read.induct) (auto split: prod.splits)

lemma exec_all_Nil [simp]: "exec_all i [] w = w"
  by (simp add: exec_all_def)

lemma exec_all_Cons [simp]: "exec_all i (a # acts) w = exec_all i acts (exec i a w)"
  by (simp add: exec_all_def)

lemma exec_all_append: "exec_all i (xs @ ys) w = exec_all i ys (exec_all i xs w)"
  by (simp add: exec_all_def)

lemma signals_exec: "signals (exec i a w) = signals w @ posted [a]"
  by (cases a) (auto simp: tk_validate_def split: option.splits)

lemma posted_Cons: "posted (a # acts) = posted [a] @ posted acts"
  by (cases a) auto

lemma signals_exec_all: "signals (exec_all i acts w) = signals w @ posted acts"
proof (induction acts arbitrary: w)
  case Nil
  then show ?case by simp
next
  case (Cons a acts)
  have "signals (exec_all i (a # acts) w) = (signals w @ posted [a]) @ posted acts"
    by (simp add: Cons.IH signals_exec)
  then show ?case using posted_Cons [of a acts] by simp
qed

lemma output_queue_exec: "output_queue (exec i a w) = output_queue w @ queued [a]"
  by (cases a) (auto simp: tk_validate_def split: option.splits)

lemma queued_Cons: "queued (a # acts) = queued [a] @ queued acts"
  by (cases a) auto

lemma output_queue_exec_all: "output_queue (exec_all i acts w) = output_queue w @ queued acts"
proof (induction acts arbitrary: w)
  case Nil
  then show ?case by simp
next
  case (Cons a acts)
  have "output_queue (exec_all i (a # acts) w) = (output_queue w @ queued [a]) @ queued acts"
    by (simp add: Cons.IH output_queue_exec)
  then show ?case using queued_Cons [of a acts] by simp
qed

lemma output_text_puts: "output_text (exec_all i (map Put ls) w) = output_text w"
  by (induction ls arbitrary: w) simp_all

lemma posted_append: "posted (xs @ ys) = posted xs @ posted ys"
  by (induction xs rule: posted.induct) auto

lemma queued_append: "queued (xs @ ys) = queued xs @ queued ys"
  by (induction xs rule: queued.induct) auto

lemma posted_map_Emit: "posted (map Emit_output ls) = map Output_signal ls"
  by (induction ls) auto

lemma queued_map_Put: "queued (map Put ls) = ls"
  by (induction ls) auto

lemma pump_cases:
  "pump relay rs = (map relay (lines_read rs), if Read_failure \<in> set rs then Some Read_error else None)"
  using pump_fst [of relay rs] pump_snd [of relay rs] by (cases "pump relay rs") simp

lemma qt_trace:
  "qt_run_process cmd beh =
     Set_running True #
     (if spawn_ok beh then
        Popen cmd # map Emit_output (lines_read (stream beh)) @
        [if Read_failure \<in> set (stream beh) then Raise Read_error else Wait]
      else [Raise Spawn_error]) @ [Emit_finished]"
  by (simp add: qt_run_process_def pump_cases)

lemma tk_trace:
  "tk_run_process cmd beh =
     [Set_running True, Progress_start] @
     (if spawn_ok beh then
        Popen cmd # map Put (lines_read (stream beh)) @
        [if Read_failure \<in> set (stream beh) then Raise Read_error else Wait]
      else [Raise Spawn_error]) @ [Set_running False, Progress_stop, Validate]"
  by (simp add: tk_run_process_def pump_cases)

lemma posted_qt:
  "posted (qt_run_process cmd beh) =
     map Output_signal (if spawn_ok beh then lines_read (stream beh) else []) @ [Process_finished]"
  by (simp add: qt_trace posted_append posted_map_Emit)

lemma queued_tk:
  "queued (tk_run_process cmd beh) = (if spawn_ok beh then lines_read (stream beh) else [])"
  by (simp add: tk_trace queued_append queued_map_Put)

lemma process_queue_drains:
  "output_queue w = q \<Longrightarrow>
   process_queue w = w\<lparr>output_queue := [], output_text := output_text w @ concat q\<rparr>"
proof (induction q arbitrary: w)
  case Nil
  then show ?case by (simp add: process_queue.simps)
next
  case (Cons x q)
  let ?v = "append_output x (w\<lparr>output_queue := tl (output_queue w)\<rparr>)"
  have q: "output_queue ?v = q" using Cons.prems by (simp add: append_output_def)
  have "process_queue w = process_queue ?v"
    using Cons.prems by (subst process_queue.simps) simp
  also have "\<dots> = ?v\<lparr>output_queue := [], output_text := output_text ?v @ concat q\<rparr>"
    using q by (rule Cons.IH)
  also have "\<dots> = w\<lparr>output_queue := [], output_text := output_text w @ concat (x # q)\<rparr>"
    by (simp add: append_output_def)
  finally show ?case .
qed

lemma signals_qt_dispatch: "signals (qt_dispatch w) = tl (signals w)"
  by (simp add: qt_dispatch_def append_output_def on_process_finished_def qt_validate_def
      split: list.splits signal.splits)

lemma qt_dispatch_lines:
  "signals w = map Output_signal ls @ rest \<Longrightarrow>
   (qt_dispatch ^^ length ls) w = w\<lparr>signals := rest, output_text := output_text w @ concat ls\<rparr>"
proof (induction ls arbitrary: w)
  case Nil
  then show ?case by simp
next
  case (Cons l ls)
  let ?v = "append_output l (w\<lparr>signals := map Output_signal ls @ rest\<rparr>)"
  have step: "qt_dispatch w = ?v" using Cons.prems by (simp add: qt_dispatch_def)
  have "signals ?v = map Output_signal ls @ rest" by (simp add: append_output_def)
  then have "(qt_dispatch ^^ length ls) ?v =
      ?v\<lparr>signals := rest, output_text := output_text ?v @ concat ls\<rparr>"
    by (rule Cons.IH)
  then show ?case by (simp add: funpow_swap1 step append_output_def)
qed

lemma deliver_finished_last:
  "signals w = ss @ [Process_finished] \<Longrightarrow> \<not> process_running ((qt_dispatch ^^ Suc (length ss)) w)"
proof (induction ss arbitrary: w)
  case Nil
  then show ?case
    by (simp add: qt_dispatch_def on_process_finished_def qt_validate_def)
next
  case (Cons s ss)
  have "signals (qt_dispatch w) = ss @ [Process_finished]"
    using Cons.prems by (simp add: signals_qt_dispatch)
  then have "\<not> process_running ((qt_dispatch ^^ Suc (length ss)) (qt_dispatch w))"
    by (rule Cons.IH)
  then show ?case by (simp add: funpow_swap1)
qed

lemma threads_tk_start:
  "threads (tk_start_download beh w) =
     threads w @ [\<lparr>args = launched (tk_start_download beh w),
                   todo = tk_run_process (launched (tk_start_download beh w)) beh,
                   child = None\<rparr>]
   \<and> processes (tk_start_download beh w) = processes w"
  by (simp add: launched_def tk_start_download_def start_thread_def append_output_def Let_def)

lemma threads_qt_start:
  "threads (qt_start_download beh w) =
     threads w @ [\<lparr>args = launched (qt_start_download beh w),
                   todo = qt_run_process (launched (qt_start_download beh w)) beh,
                   child = None\<rparr>]
   \<and> processes (qt_start_download beh w) = processes w"
  by (simp add: launched_def qt_start_download_def start_thread_def append_output_def Let_def)

lemma queue_put_unbounded: "queue_put output_queue_maxsize q x = Some (q @ [x])"
  by (simp add: queue_put_def output_queue_maxsize_def)

lemma never_waits: "\<not> waits a w"
  by (cases a) (simp_all add: waits_def queue_put_unbounded)

lemma first_step_sets_flag:
  assumes "threads v = ts @ [\<lparr>args = c, todo = Set_running True # rest, child = None\<rparr>]"
  shows "process_running (thread_step (length ts) v)
       \<and> processes (thread_step (length ts) v) = processes v"
  using assms by (simp add: thread_step_def never_waits)

section \<open>Every set flag is matched by a finalisation\<close>

lemma closes_tl:
  assumes "closes (a # rest)"
  shows "closes rest"
proof (cases a)
  case (Set_running b)
  then show ?thesis using assms by (cases b) auto
qed (use assms in auto)

lemma closes_no_flag: "\<forall>a \<in> set acts. a \<noteq> Set_running True \<Longrightarrow> closes acts"
  by (induction acts rule: closes.induct) auto

lemma closes_tk: "closes (tk_run_process cmd beh)"
  by (auto simp: tk_trace pending_def intro!: closes_no_flag)

lemma closes_qt: "closes (qt_run_process cmd beh)"
  by (auto simp: qt_trace pending_def intro!: closes_no_flag)

lemma todo_exec: "map todo (threads (exec i a w)) = map todo (threads w)"
  by (cases a) (auto simp: tk_validate_def map_update list_update_same_conv split: option.splits)

lemma running_exec:
  "process_running (exec i a w) = (case a of Set_running b \<Rightarrow> b | _ \<Rightarrow> process_running w)"
  by (cases a) (auto simp: tk_validate_def split: option.splits)


lemma pending_tl:
  "pending (a # rest) \<Longrightarrow> a \<noteq> Set_running False \<Longrightarrow> a \<noteq> Emit_finished \<Longrightarrow> pending rest"
  by (auto simp: pending_def)

lemma accounted_alt:
  "accounted w \<longleftrightarrow>
     (\<forall>acts \<in> set (map todo (threads w)). closes acts)
     \<and> (process_running w \<longrightarrow>
          (\<exists>acts \<in> set (map todo (threads w)). pending acts) \<or> Process_finished \<in> set (signals w))"
  by (auto simp: accounted_def list_all_iff list_ex_iff)

lemma accounted_thread_step:
  assumes "accounted w"
  shows "accounted (thread_step i w)"
proof (cases "i < length (threads w)")
  case False
  then show ?thesis using assms by (simp add: thread_step_def)
next
  case in_range: True
  show ?thesis
  proof (cases "todo (threads w ! i)")
    case Nil
    then show ?thesis using assms in_range by (simp add: thread_step_def)
  next
    case (Cons a rest)
    let ?v = "w\<lparr>threads := (threads w)[i := (threads w ! i)\<lparr>todo := rest\<rparr>]\<rparr>"
    have step: "thread_step i w = exec i a ?v"
      using in_range Cons by (simp add: thread_step_def never_waits)
    have tds: "map todo (threads (exec i a ?v)) = (map todo (threads w))[i := rest]"
      by (simp add: todo_exec map_update)
    have at_i: "map todo (threads w) ! i = a # rest"
      using in_range Cons by simp
    have len: "i < length (map todo (threads w))" using in_range by simp
    have all_closed: "\<forall>acts \<in> set (map todo (threads w)). closes acts"
      using assms by (simp add: accounted_alt)
    have "closes (a # rest)" using all_closed at_i len by (metis nth_mem)
    then have closed_rest: "closes rest" by (rule closes_tl)
    have closed': "\<forall>acts \<in> set ((map todo (threads w))[i := rest]). closes acts"
      using all_closed closed_rest by (metis insertE set_update_subset_insert subsetD)
    have busy': "(\<exists>acts \<in> set ((map todo (threads w))[i := rest]). pending acts)
          \<or> Process_finished \<in> set (signals (exec i a ?v))"
      if run: "process_running (exec i a ?v)"
    proof (cases "a = Set_running True")
      case True
      then have "pending rest" using \<open>closes (a # rest)\<close> by simp
      then show ?thesis using len by (metis set_update_memI)
    next
      case not_set: False
      show ?thesis
      proof (cases "a = Emit_finished")
        case True
        then show ?thesis by simp
      next
        case not_fin: False
        have not_reset: "a \<noteq> Set_running False"
          using run by (auto simp: running_exec)
        from run have "case a of Set_running b \<Rightarrow> b | _ \<Rightarrow> process_running ?v"
          by (simp only: running_exec)
        then have "process_running ?v"
          using not_set not_reset by (cases a) auto
        then have "process_running w" by simp
        then consider (thr) acts where "acts \<in> set (map todo (threads w))" "pending acts"
          | (sig) "Process_finished \<in> set (signals w)"
          using assms by (auto simp: accounted_alt)
        then show ?thesis
        proof cases
          case thr
          then obtain j where j: "j < length (map todo (threads w))" "map todo (threads w) ! j = acts"
            by (metis in_set_conv_nth)
          show ?thesis
          proof (cases "j = i")
            case True
            then have "pending (a # rest)" using thr j at_i by simp
            then have "pending rest" using not_reset not_fin by (rule pending_tl)
            then show ?thesis using len by (metis set_update_memI)
          next
            case False
            then have "(map todo (threads w))[i := rest] ! j = acts" using j by simp
            then have "acts \<in> set ((map todo (threads w))[i := rest])"
              using j by (metis length_list_update nth_mem)
            then show ?thesis using thr by blast
          qed
        next
          case sig
          then have "Process_finished \<in> set (signals (exec i a ?v))"
            by (simp add: signals_exec)
          then show ?thesis by simp
        qed
      qed
    qed
    show ?thesis
      unfolding step accounted_alt tds using closed' busy' by blast
  qed
qed


lemma accounted_cong:
  "threads v = threads w \<Longrightarrow> process_running v = process_running w \<Longrightarrow>
   signals v = signals w \<Longrightarrow> accounted v = accounted w"
  by (simp add: accounted_def)

lemma accounted_tk_validate: "accounted (tk_validate w) = accounted w"
  by (rule accounted_cong) (simp_all add: tk_validate_def)

lemma accounted_qt_validate: "accounted (qt_validate w) = accounted w"
  by (rule accounted_cong) (simp_all add: qt_validate_def)

lemma accounted_process_queue: "accounted (process_queue w) = accounted w"
  by (rule accounted_cong) (simp_all add: process_queue_drains [OF refl])

lemma accounted_tk_start: "accounted w \<Longrightarrow> accounted (tk_start_download beh w)"
  using threads_tk_start [of beh w] closes_tk [of "launched (tk_start_download beh w)" beh]
  by (auto simp: accounted_def tk_start_download_def start_thread_def append_output_def Let_def)

lemma accounted_qt_start: "accounted w \<Longrightarrow> accounted (qt_start_download beh w)"
  using threads_qt_start [of beh w] closes_qt [of "launched (qt_start_download beh w)" beh]
  by (auto simp: accounted_def qt_start_download_def start_thread_def append_output_def Let_def)

lemma accounted_qt_dispatch: "accounted w \<Longrightarrow> accounted (qt_dispatch w)"
  by (auto simp: accounted_def qt_dispatch_def append_output_def on_process_finished_def
      qt_validate_def split: list.splits signal.splits if_splits)

lemma accounted_tk_step: "accounted w \<Longrightarrow> accounted (tk_step e w)"
  by (cases e)
    (auto simp: accounted_tk_validate accounted_process_queue accounted_tk_start accounted_thread_step
      intro: accounted_cong [THEN iffD2])

lemma accounted_qt_step: "accounted w \<Longrightarrow> accounted (qt_step e w)"
  by (cases e)
    (auto simp: accounted_qt_validate accounted_process_queue accounted_qt_start accounted_thread_step
      accounted_qt_dispatch intro: accounted_cong [THEN iffD2])

lemma accounted_tk_run: "accounted w \<Longrightarrow> accounted (tk_run es w)"
  unfolding tk_run_def by (induction es arbitrary: w) (simp_all add: accounted_tk_step)

lemma accounted_qt_run: "accounted w \<Longrightarrow> accounted (qt_run es w)"
  unfolding qt_run_def by (induction es arbitrary: w) (simp_all add: accounted_qt_step)

lemma accounted_init: "accounted (tk_init exe folder)" "accounted (qt_init exe folder)"
  by (simp_all add: accounted_def tk_init_def qt_init_def)

lemma quiescent_idle: "accounted w \<Longrightarrow> quiescent w \<Longrightarrow> \<not> process_running w"
  by (auto simp: accounted_def quiescent_def pending_def list_all_iff list_ex_iff split: if_splits)

lemma never_stuck:
  "quiescent (tk_run es (tk_init exe folder)) \<longrightarrow> \<not> process_running (tk_run es (tk_init exe folder))"
  "quiescent (qt_run es (qt_init exe folder)) \<longrightarrow> \<not> process_running (qt_run es (qt_init exe folder))"
  using quiescent_idle accounted_tk_run accounted_qt_run accounted_init by blast+


section \<open>The flag and the spawn\<close>

text \<open>
  Claim C2 does not hold as stated. In Qt, with the URL entered, both presses of
  Download happen while the flag is clear; the two workers then each set the flag and
  each spawn a process, and neither process has been waited for: two are alive.
\<close>

theorem two_starts_both_spawn:
  "\<not> process_running (qt_run [Edit_url ''https://x/1''] (qt_init ''/app/yt-dlp.exe'' ''/tmp''))
   \<and> \<not> process_running qt_one_press
   \<and> length (threads qt_two_presses) = 2
   \<and> process_running qt_interleaved
   \<and> alive qt_interleaved = 2"
  by code_simp

text \<open>
  Claim C2, amended. The first statement of every worker sets the running flag, so any
  spawn in its trace comes strictly later; the first step of a freshly started worker
  sets the flag and spawns nothing. The write is a plain assignment of \<open>True\<close> that
  does not look at the previous value.
\<close>

theorem running_flag_set_before_spawn:
  "tk_run_process cmd beh ! 0 = Set_running True
   \<and> qt_run_process cmd beh ! 0 = Set_running True
   \<and> (\<forall>n c. tk_run_process cmd beh ! n = Popen c \<longrightarrow> 0 < n)
   \<and> (\<forall>n c. qt_run_process cmd beh ! n = Popen c \<longrightarrow> 0 < n)
   \<and> process_running (thread_step (length (threads w)) (tk_start_download beh w))
   \<and> processes (thread_step (length (threads w)) (tk_start_download beh w)) = processes w
   \<and> process_running (thread_step (length (threads w)) (qt_start_download beh w))
   \<and> processes (thread_step (length (threads w)) (qt_start_download beh w)) = processes w
   \<and> exec i (Set_running True) w = w\<lparr>process_running := True\<rparr>"
proof -
  have tk0: "tk_run_process cmd beh ! 0 = Set_running True"
    by (simp add: tk_run_process_def)
  have qt0: "qt_run_process cmd beh ! 0 = Set_running True"
    by (simp add: qt_run_process_def)
  have tkn: "\<forall>n c. tk_run_process cmd beh ! n = Popen c \<longrightarrow> 0 < n"
  proof (intro allI impI)
    fix n c assume "tk_run_process cmd beh ! n = Popen c"
    then have "n \<noteq> 0" using tk0 by (cases n) auto
    then show "0 < n" by simp
  qed
  have qtn: "\<forall>n c. qt_run_process cmd beh ! n = Popen c \<longrightarrow> 0 < n"
  proof (intro allI impI)
    fix n c assume "qt_run_process cmd beh ! n = Popen c"
    then have "n \<noteq> 0" using qt0 by (cases n) auto
    then show "0 < n" by simp
  qed
  have tk_body: "\<exists>rest. tk_run_process c beh = Set_running True # rest" for c
    by (simp add: tk_run_process_def)
  have qt_body: "\<exists>rest. qt_run_process c beh = Set_running True # rest" for c
    by (simp add: qt_run_process_def)
  have tk_first: "process_running (thread_step (length (threads w)) (tk_start_download beh w))
      \<and> processes (thread_step (length (threads w)) (tk_start_download beh w)) = processes w"
    using threads_tk_start [of beh w] tk_body [of "launched (tk_start_download beh w)"]
      first_step_sets_flag [of "tk_start_download beh w" "threads w"]
    by auto
  have qt_first: "process_running (thread_step (length (threads w)) (qt_start_download beh w))
      \<and> processes (thread_step (length (threads w)) (qt_start_download beh w)) = processes w"
    using threads_qt_start [of beh w] qt_body [of "launched (qt_start_download beh w)"]
      first_step_sets_flag [of "qt_start_download beh w" "threads w"]
    by auto
  show ?thesis using tk0 qt0 tkn qtn tk_first qt_first by simp
qed

theorem running_flag_set_before_spawn_witness:
  "tk_run_process [''yt-dlp''] slow_job ! 2 = Popen [''yt-dlp'']
   \<and> qt_run_process [''yt-dlp''] slow_job ! 1 = Popen [''yt-dlp'']
   \<and> tk_run_process [''yt-dlp''] slow_job ! 0 = Set_running True
   \<and> qt_run_process [''yt-dlp''] slow_job ! 0 = Set_running True
   \<and> process_running (thread_step 0 (qt_start_download slow_job (qt_init ''/app/yt-dlp.exe'' ''/tmp'')))"
proof -
  have a: "tk_run_process [''yt-dlp''] slow_job ! 2 = Popen [''yt-dlp'']" by code_simp
  have b: "qt_run_process [''yt-dlp''] slow_job ! 1 = Popen [''yt-dlp'']" by code_simp
  have c: "length (threads (qt_init ''/app/yt-dlp.exe'' ''/tmp'')) = 0" by (simp add: qt_init_def)
  show ?thesis
    using a b c running_flag_set_before_spawn
      [of "[''yt-dlp'']" slow_job "qt_init ''/app/yt-dlp.exe'' ''/tmp''" 0]
    by simp
qed

section \<open>The end of a job\<close>

text \<open>
  Claim C3 does not hold as stated. When the output stream yields one line and then
  fails, the worker of either front-end goes from the failed read straight to its
  \<^verbatim>\<open>finally\<close> block: its trace has no \<open>Wait\<close>.
\<close>

theorem read_failure_skips_wait:
  "qt_run_process [''yt-dlp'', ''-F'', ''https://x/1''] broken_pipe =
     [Set_running True, Popen [''yt-dlp'', ''-F'', ''https://x/1''],
      Emit_output (''[download] 1%'' @ [CHR 0x0A]), Raise Read_error, Emit_finished]
   \<and> tk_run_process [''yt-dlp'', ''-F'', ''https://x/1''] broken_pipe =
     [Set_running True, Progress_start, Popen [''yt-dlp'', ''-F'', ''https://x/1''],
      Put (''[download] 1%'' @ [CHR 0x0A]), Raise Read_error,
      Set_running False, Progress_stop, Validate]
   \<and> Wait \<notin> set (qt_run_process [''yt-dlp'', ''-F'', ''https://x/1''] broken_pipe)
   \<and> Wait \<notin> set (tk_run_process [''yt-dlp'', ''-F'', ''https://x/1''] broken_pipe)"
  by (simp add: qt_run_process_def tk_run_process_def broken_pipe_def)

text \<open>
  Claim C3, amended. Every worker ends with its finalisation (Tkinter: reset of the
  flag, stop of the progress bar, validation; Qt: the \<^verbatim>\<open>process_finished\<close> signal),
  also when the spawn or a read failed. When the spawn succeeded and no read failed,
  \<open>Wait\<close> comes immediately before it, whatever the exit status; when the spawn
  succeeded, the lines relayed are exactly those read before the stream ended or
  failed. A Tkinter worker run to its end leaves the flag clear, and so does a Qt
  worker once the pending signals are delivered; and in every run of either front-end
  from its initial state, a quiescent state has the flag clear.
\<close>

theorem job_always_finalised:
  "suffix [Set_running False, Progress_stop, Validate] (tk_run_process cmd beh)
   \<and> suffix [Emit_finished] (qt_run_process cmd beh)
   \<and> (spawn_ok beh \<and> Read_failure \<notin> set (stream beh) \<longrightarrow>
        suffix [Wait, Set_running False, Progress_stop, Validate] (tk_run_process cmd beh)
        \<and> suffix [Wait, Emit_finished] (qt_run_process cmd beh))
   \<and> (spawn_ok beh \<longrightarrow>
        queued (tk_run_process cmd beh) = lines_read (stream beh)
        \<and> posted (qt_run_process cmd beh) =
            map Output_signal (lines_read (stream beh)) @ [Process_finished])
   \<and> \<not> process_running (exec_all i (tk_run_process cmd beh) w)
   \<and> \<not> process_running (qt_deliver_all (exec_all i (qt_run_process cmd beh) w))
   \<and> (quiescent (tk_run es (tk_init exe folder)) \<longrightarrow>
        \<not> process_running (tk_run es (tk_init exe folder)))
   \<and> (quiescent (qt_run es (qt_init exe folder)) \<longrightarrow>
        \<not> process_running (qt_run es (qt_init exe folder)))"
proof -
  have tk_end: "suffix [Set_running False, Progress_stop, Validate] (tk_run_process cmd beh)"
    unfolding tk_run_process_def by (intro suffix_appendI) simp
  have qt_end: "suffix [Emit_finished] (qt_run_process cmd beh)"
    unfolding qt_run_process_def by (intro suffix_appendI) simp
  have waited: "spawn_ok beh \<and> Read_failure \<notin> set (stream beh) \<longrightarrow>
        suffix [Wait, Set_running False, Progress_stop, Validate] (tk_run_process cmd beh)
        \<and> suffix [Wait, Emit_finished] (qt_run_process cmd beh)"
  proof
    assume ok: "spawn_ok beh \<and> Read_failure \<notin> set (stream beh)"
    have "tk_run_process cmd beh =
        ([Set_running True, Progress_start, Popen cmd] @ map Put (lines_read (stream beh))) @
        [Wait, Set_running False, Progress_stop, Validate]"
      using ok by (simp add: tk_trace)
    then have a: "suffix [Wait, Set_running False, Progress_stop, Validate] (tk_run_process cmd beh)"
      by (rule suffixI)
    have "qt_run_process cmd beh =
        ([Set_running True, Popen cmd] @ map Emit_output (lines_read (stream beh))) @
        [Wait, Emit_finished]"
      using ok by (simp add: qt_trace)
    then have b: "suffix [Wait, Emit_finished] (qt_run_process cmd beh)"
      by (rule suffixI)
    show "suffix [Wait, Set_running False, Progress_stop, Validate] (tk_run_process cmd beh)
        \<and> suffix [Wait, Emit_finished] (qt_run_process cmd beh)"
      using a b by simp
  qed
  have relayed: "spawn_ok beh \<longrightarrow>
        queued (tk_run_process cmd beh) = lines_read (stream beh)
        \<and> posted (qt_run_process cmd beh) =
            map Output_signal (lines_read (stream beh)) @ [Process_finished]"
    by (simp add: queued_tk posted_qt)
  obtain pre where pre: "tk_run_process cmd beh = pre @ [Set_running False, Progress_stop, Validate]"
    using tk_end by (auto simp: suffix_def)
  have tk_idle: "\<not> process_running (exec_all i (tk_run_process cmd beh) w)"
    unfolding pre exec_all_append by (simp add: tk_validate_def)
  let ?v = "exec_all i (qt_run_process cmd beh) w"
  let ?ss = "signals w @ map Output_signal (if spawn_ok beh then lines_read (stream beh) else [])"
  have sig: "signals ?v = ?ss @ [Process_finished]"
    by (simp add: signals_exec_all posted_qt)
  then have len: "length (signals ?v) = Suc (length ?ss)" by simp
  have qt_idle: "\<not> process_running (qt_deliver_all ?v)"
    unfolding qt_deliver_all_def len using sig by (rule deliver_finished_last)
  show ?thesis
    using tk_end qt_end waited relayed tk_idle qt_idle
      never_stuck(1) [of es exe folder] never_stuck(2) [of es exe folder]
    by (intro conjI)
qed


theorem job_always_finalised_witness:
  "spawn_ok slow_job \<and> Read_failure \<notin> set (stream slow_job)
   \<and> suffix [Wait, Set_running False, Progress_stop, Validate] (tk_run_process [''yt-dlp''] slow_job)
   \<and> suffix [Wait, Emit_finished] (qt_run_process [''yt-dlp''] slow_job)
   \<and> suffix [Emit_finished] (qt_run_process [''yt-dlp''] broken_pipe)
   \<and> \<not> process_running (exec_all 0 (tk_run_process [''yt-dlp''] broken_pipe) tk_first_job)
   \<and> \<not> process_running
         (qt_deliver_all (exec_all 0 (qt_run_process [''yt-dlp''] broken_pipe) qt_one_press))
   \<and> quiescent (tk_run tk_broken_run (tk_init ''/app/yt-dlp.exe'' ''/tmp''))
   \<and> \<not> process_running (tk_run tk_broken_run (tk_init ''/app/yt-dlp.exe'' ''/tmp''))
   \<and> quiescent (qt_run qt_broken_run (qt_init ''/app/yt-dlp.exe'' ''/tmp''))
   \<and> \<not> process_running (qt_run qt_broken_run (qt_init ''/app/yt-dlp.exe'' ''/tmp''))"
proof -
  have ok: "spawn_ok slow_job \<and> Read_failure \<notin> set (stream slow_job)"
    by (simp add: slow_job_def)
  have tk_q: "quiescent (tk_run tk_broken_run (tk_init ''/app/yt-dlp.exe'' ''/tmp''))"
    by code_simp
  have qt_q: "quiescent (qt_run qt_broken_run (qt_init ''/app/yt-dlp.exe'' ''/tmp''))"
    by code_simp
  show ?thesis
    using ok tk_q qt_q
      job_always_finalised [where cmd = "[''yt-dlp'']" and beh = slow_job and i = 0
        and w = tk_first_job and es = tk_broken_run
        and exe = "''/app/yt-dlp.exe''" and folder = "''/tmp''"]
      job_always_finalised [where cmd = "[''yt-dlp'']" and beh = broken_pipe and i = 0
        and w = tk_first_job and es = qt_broken_run
        and exe = "''/app/yt-dlp.exe''" and folder = "''/tmp''"]
      job_always_finalised [where cmd = "[''yt-dlp'']" and beh = broken_pipe and i = 0
        and w = qt_one_press and es = qt_broken_run
        and exe = "''/app/yt-dlp.exe''" and folder = "''/tmp''"]
    by blast
qed

section \<open>The relay\<close>

text \<open>
  Claim C4 does not hold as stated for the Tkinter relay. That relay carries lines only:
  the worker posts no finish event, and the end of a job is its own reset of the flag.
  After a worker has executed all its statements the job is finalised (flag clear,
  button enabled) while both of its lines are still queued; they reach the output
  widget only when the timer fires next.
\<close>

theorem lines_arrive_after_finalisation:
  "quiescent tk_slow_done
   \<and> \<not> process_running tk_slow_done
   \<and> download_btn tk_slow_done
   \<and> posted (tk_run_process (launched tk_slow_done) slow_job) = []
   \<and> output_queue tk_slow_done = [''[download] 1%'' @ [CHR 0x0A], ''[download] 2%'' @ [CHR 0x0A]]
   \<and> output_text tk_slow_done = started_banner
   \<and> output_text (tk_step Timer tk_slow_done) =
       started_banner @ ''[download] 1%'' @ [CHR 0x0A] @ ''[download] 2%'' @ [CHR 0x0A]"
  by code_simp

text \<open>
  Claim C4, amended. A put on the Tkinter queue never has to wait (the queue is
  unbounded), so a worker whose next statement is a put always advances. Lines put
  are appended in the order of the puts and none is lost; draining appends everything
  queued to the output widget, oldest first, and empties the queue. The Tkinter relay
  carries lines only: a worker queues exactly the lines it read and puts nothing once
  it has reset the flag, which is how its job ends. A Qt worker emits one signal per
  line read, in order, and \<^verbatim>\<open>process_finished\<close> last; the event loop delivers the line
  signals in that order.
\<close>

theorem relay_is_fifo:
  "\<not> waits (Put l) w
   \<and> queue_put output_queue_maxsize q l = Some (q @ [l])
   \<and> (i < length (threads w) \<and> todo (threads w ! i) = Put l # later \<longrightarrow>
        output_queue (thread_step i w) = output_queue w @ [l]
        \<and> todo (threads (thread_step i w) ! i) = later)
   \<and> output_queue (exec_all i (map Put ls) w) = output_queue w @ ls
   \<and> process_queue w =
       w\<lparr>output_queue := [], output_text := output_text w @ concat (output_queue w)\<rparr>
   \<and> output_text (process_queue (exec_all i (map Put ls) w)) =
       output_text w @ concat (output_queue w @ ls)
   \<and> output_queue (exec_all i (tk_run_process cmd beh) w) =
       output_queue w @ (if spawn_ok beh then lines_read (stream beh) else [])
   \<and> dropWhile (\<lambda>a. a \<noteq> Set_running False) (tk_run_process cmd beh) =
       [Set_running False, Progress_stop, Validate]
   \<and> signals (exec_all i (qt_run_process cmd beh) w) =
       signals w @ map Output_signal (if spawn_ok beh then lines_read (stream beh) else [])
         @ [Process_finished]
   \<and> (signals w = map Output_signal ls @ rest \<longrightarrow>
        (qt_dispatch ^^ length ls) w =
          w\<lparr>signals := rest, output_text := output_text w @ concat ls\<rparr>)"
proof -
  have free: "\<not> waits (Put l) w" by (rule never_waits)
  have unbounded: "queue_put output_queue_maxsize q l = Some (q @ [l])"
    by (rule queue_put_unbounded)
  have advance: "i < length (threads w) \<and> todo (threads w ! i) = Put l # later \<longrightarrow>
        output_queue (thread_step i w) = output_queue w @ [l]
        \<and> todo (threads (thread_step i w) ! i) = later"
    by (simp add: thread_step_def never_waits)
  have put: "output_queue (exec_all i (map Put ls) w) = output_queue w @ ls"
    by (simp add: output_queue_exec_all queued_map_Put)
  have drain: "process_queue w =
       w\<lparr>output_queue := [], output_text := output_text w @ concat (output_queue w)\<rparr>"
    by (rule process_queue_drains) simp
  have shown: "output_text (process_queue (exec_all i (map Put ls) w)) =
       output_text w @ concat (output_queue w @ ls)"
    by (simp add: process_queue_drains [OF refl] output_text_puts output_queue_exec_all
        queued_map_Put)
  have tk_lines: "output_queue (exec_all i (tk_run_process cmd beh) w) =
       output_queue w @ (if spawn_ok beh then lines_read (stream beh) else [])"
    by (simp add: output_queue_exec_all queued_tk)
  define pre where "pre = [Set_running True, Progress_start] @
     (if spawn_ok beh then
        Popen cmd # map Put (lines_read (stream beh)) @
        [if Read_failure \<in> set (stream beh) then Raise Read_error else Wait]
      else [Raise Spawn_error])"
  have split: "tk_run_process cmd beh = pre @ [Set_running False, Progress_stop, Validate]"
    by (simp add: tk_trace pre_def)
  have "\<And>a. a \<in> set pre \<Longrightarrow> a \<noteq> Set_running False"
    by (auto simp: pre_def split: if_splits)
  then have last_reset: "dropWhile (\<lambda>a. a \<noteq> Set_running False) (tk_run_process cmd beh) =
       [Set_running False, Progress_stop, Validate]"
    unfolding split by (simp add: dropWhile_append2)
  have qt_sig: "signals (exec_all i (qt_run_process cmd beh) w) =
       signals w @ map Output_signal (if spawn_ok beh then lines_read (stream beh) else [])
         @ [Process_finished]"
    by (simp add: signals_exec_all posted_qt)
  have deliver: "signals w = map Output_signal ls @ rest \<longrightarrow>
        (qt_dispatch ^^ length ls) w =
          w\<lparr>signals := rest, output_text := output_text w @ concat ls\<rparr>"
    using qt_dispatch_lines by blast
  show ?thesis
    using free unbounded advance put drain shown tk_lines last_reset qt_sig deliver
    by (intro conjI)
qed

theorem relay_is_fifo_witness:
  "0 < length (threads tk_first_job)
   \<and> todo (threads tk_first_job ! 0) =
       Put (''[download] 1%'' @ [CHR 0x0A]) #
       [Put (''[download] 2%'' @ [CHR 0x0A]), Wait, Set_running False, Progress_stop, Validate]
   \<and> output_queue (thread_step 0 tk_first_job) = [''[download] 1%'' @ [CHR 0x0A]]
   \<and> signals qt_slow_done =
     map Output_signal [''[download] 1%'' @ [CHR 0x0A], ''[download] 2%'' @ [CHR 0x0A]]
       @ [Process_finished]
   \<and> (qt_dispatch ^^ length [''[download] 1%'' @ [CHR 0x0A], ''[download] 2%'' @ [CHR 0x0A]])
        qt_slow_done =
      qt_slow_done\<lparr>signals := [Process_finished],
        output_text := output_text qt_slow_done @
          concat [''[download] 1%'' @ [CHR 0x0A], ''[download] 2%'' @ [CHR 0x0A]]\<rparr>"
proof -
  have len: "0 < length (threads tk_first_job)" by code_simp
  have next_put: "todo (threads tk_first_job ! 0) =
       Put (''[download] 1%'' @ [CHR 0x0A]) #
       [Put (''[download] 2%'' @ [CHR 0x0A]), Wait, Set_running False, Progress_stop, Validate]"
    by code_simp
  have empty: "output_queue tk_first_job = []" by code_simp
  have sig: "signals qt_slow_done =
     map Output_signal [''[download] 1%'' @ [CHR 0x0A], ''[download] 2%'' @ [CHR 0x0A]]
       @ [Process_finished]"
    by code_simp
  have tk: "output_queue (thread_step 0 tk_first_job) = [''[download] 1%'' @ [CHR 0x0A]]"
    using len next_put empty
      relay_is_fifo [where w = tk_first_job and i = 0 and l = "''[download] 1%'' @ [CHR 0x0A]"
        and later = "[Put (''[download] 2%'' @ [CHR 0x0A]), Wait, Set_running False,
                     Progress_stop, Validate]"]
    by simp
  have qt: "(qt_dispatch ^^ length [''[download] 1%'' @ [CHR 0x0A], ''[download] 2%'' @ [CHR 0x0A]])
        qt_slow_done =
      qt_slow_done\<lparr>signals := [Process_finished],
        output_text := output_text qt_slow_done @
          concat [''[download] 1%'' @ [CHR 0x0A], ''[download] 2%'' @ [CHR 0x0A]]\<rparr>"
    using sig relay_is_fifo [where w = qt_slow_done and rest = "[Process_finished]"
        and ls = "[''[download] 1%'' @ [CHR 0x0A], ''[download] 2%'' @ [CHR 0x0A]]"]
    by blast
  show ?thesis using len next_put tk sig qt by (intro conjI)
qed

section \<open>Re-enabling the button\<close>

text \<open>
  Claim C8. In Qt, delivering \<^verbatim>\<open>process_finished\<close> runs \<^verbatim>\<open>on_process_finished\<close>, which
  clears the flag before its \<^verbatim>\<open>validate()\<close> reads it, so the button is enabled exactly
  when the trimmed URL is not empty. In Tkinter the worker ends with the reset of the
  flag followed by \<^verbatim>\<open>validate()\<close>, with the same result.
\<close>

theorem finished_sees_idle:
  "(signals w = Process_finished # rest \<longrightarrow>
      qt_step Dispatch w = on_process_finished (w\<lparr>signals := rest\<rparr>)
      \<and> \<not> process_running (qt_step Dispatch w)
      \<and> download_btn (qt_step Dispatch w) = (strip (url_var w) \<noteq> []))
   \<and> suffix [Set_running False, Progress_stop, Validate] (tk_run_process cmd beh)
   \<and> \<not> process_running (exec_all i [Set_running False, Progress_stop, Validate] w)
   \<and> download_btn (exec_all i [Set_running False, Progress_stop, Validate] w) =
       (strip (url_var w) \<noteq> [])"
proof -
  have qt: "signals w = Process_finished # rest \<longrightarrow>
      qt_step Dispatch w = on_process_finished (w\<lparr>signals := rest\<rparr>)
      \<and> \<not> process_running (qt_step Dispatch w)
      \<and> download_btn (qt_step Dispatch w) = (strip (url_var w) \<noteq> [])"
    by (simp add: qt_dispatch_def on_process_finished_def qt_validate_def)
  have tk_end: "suffix [Set_running False, Progress_stop, Validate] (tk_run_process cmd beh)"
    unfolding tk_run_process_def by (intro suffix_appendI) simp
  have tk1: "\<not> process_running (exec_all i [Set_running False, Progress_stop, Validate] w)"
    by (simp add: tk_validate_def)
  have tk2: "download_btn (exec_all i [Set_running False, Progress_stop, Validate] w) =
       (strip (url_var w) \<noteq> [])"
    by (simp add: tk_validate_def)
  show ?thesis using qt tk_end tk1 tk2 by (intro conjI)
qed

theorem finished_sees_idle_witness:
  "signals qt_job_done = [Process_finished]
   \<and> process_running qt_job_done
   \<and> \<not> process_running (qt_step Dispatch qt_job_done)
   \<and> download_btn (qt_step Dispatch qt_job_done)"
proof -
  have a: "signals qt_job_done = [Process_finished]" by code_simp
  have b: "process_running qt_job_done" by code_simp
  have c: "strip (url_var qt_job_done) \<noteq> []" by code_simp
  show ?thesis
    using a b c finished_sees_idle [where w = qt_job_done and rest = "[]"] by blast
qed

section \<open>Starting while a job runs\<close>

text \<open>
  Claim C1: a start while a job runs is rejected and spawns no second process. Both
  front-ends mean to prevent it at the Download button, which \<^verbatim>\<open>validate()\<close> disables
  while the flag is set, but nothing calls \<^verbatim>\<open>validate()\<close> when a job starts. So after
  one press, with the flag set and the job's process alive, the button is still enabled
  (\<^verbatim>\<open>validate()\<close> would have disabled it); a second press is accepted,
  \<^verbatim>\<open>start_download\<close> tests nothing, and its worker spawns a second process while the
  first has not been waited for. The output shows two start banners and no rejection.
\<close>

theorem second_press_spawns_second_process:
  "process_running tk_first_job
   \<and> alive tk_first_job = 1
   \<and> download_btn tk_first_job
   \<and> \<not> download_btn (tk_validate tk_first_job)
   \<and> alive tk_second_job = 2
   \<and> output_text tk_second_job = started_banner @ started_banner
   \<and> process_running qt_first_job
   \<and> alive qt_first_job = 1
   \<and> download_btn qt_first_job
   \<and> \<not> download_btn (qt_validate qt_first_job)
   \<and> alive qt_second_job = 2
   \<and> output_text qt_second_job = started_banner @ started_banner"
  by code_simp

end
